theory Spec2Isabelle
  imports Main
begin

section \<open>The scope tracker of mypy/scope.py\<close>

subsection \<open>Data model\<close>

text \<open>
  Modelled from the spec: the classes \<^verbatim>\<open>FuncBase\<close> and \<^verbatim>\<open>TypeInfo\<close> live in
  \<^verbatim>\<open>mypy.nodes\<close>, which is not part of the sources at hand. The tracker reads two
  attributes of each, the short name and the fully-qualified name, both strings
  ("each paired with its fully-qualified name and short name", "short name +
  fully-qualified name"). An object of either class counts as true in a Python
  condition; only \<^verbatim>\<open>None\<close> is false ("if a function is active", "only if the saved
  class exists").
\<close>

record FuncBase =
  name :: string
  fullname :: string

record TypeInfo =
  name :: string
  fullname :: string

text \<open>
  The attributes of \<^verbatim>\<open>Scope\<close> set by \<^verbatim>\<open>__init__\<close>. The list \<^verbatim>\<open>classes\<close> grows at its
  end (\<^verbatim>\<open>append\<close>) and shrinks there (\<^verbatim>\<open>pop\<close>), so the innermost class is the last
  element. \<^verbatim>\<open>ignored\<close> is a Python integer: unbounded and signed.
\<close>

record Scope =
  module :: "string option"
  classes :: "TypeInfo list"
  "function" :: "FuncBase option"
  ignored :: int

type_synonym SavedScope = "string \<times> TypeInfo option \<times> FuncBase option"

text \<open>A failed \<^verbatim>\<open>assert\<close> is the only way any method of the class raises.\<close>

datatype error = AssertionError

definition init :: Scope where
  "init = \<lparr>module = None, classes = [], function = None, ignored = 0\<rparr>"

subsection \<open>Queries\<close>

text \<open>
  \<^verbatim>\<open>assert self.module\<close> tests the truth value of an optional string: it fails for
  \<^verbatim>\<open>None\<close> and for the empty string alike.
\<close>

definition current_module_id :: "Scope \<Rightarrow> error + string" where
  "current_module_id s =
     (case module s of
        None \<Rightarrow> Inl AssertionError
      | Some m \<Rightarrow> if m = [] then Inl AssertionError else Inr m)"

text \<open>\<^verbatim>\<open>fullname or ""\<close> yields \<^verbatim>\<open>fullname\<close> when it is a non-empty string, else \<^verbatim>\<open>""\<close>.\<close>

definition current_target :: "Scope \<Rightarrow> error + string" where
  "current_target s =
     (case module s of
        None \<Rightarrow> Inl AssertionError
      | Some m \<Rightarrow>
          if m = [] then Inl AssertionError
          else (case function s of
                  Some f \<Rightarrow> Inr (if FuncBase.fullname f \<noteq> [] then FuncBase.fullname f else [])
                | None \<Rightarrow> Inr m))"

definition current_full_target :: "Scope \<Rightarrow> error + string" where
  "current_full_target s =
     (case module s of
        None \<Rightarrow> Inl AssertionError
      | Some m \<Rightarrow>
          if m = [] then Inl AssertionError
          else (case function s of
                  Some f \<Rightarrow> Inr (FuncBase.fullname f)
                | None \<Rightarrow>
                    if classes s \<noteq> [] then Inr (TypeInfo.fullname (last (classes s)))
                    else Inr m))"

text \<open>
  The two short-name queries contain no \<^verbatim>\<open>assert\<close>. They get the same result type as
  the other queries, so that "does not raise" is a statement about their value.
\<close>

definition current_type_name :: "Scope \<Rightarrow> error + string option" where
  "current_type_name s =
     Inr (if classes s \<noteq> [] then Some (TypeInfo.name (last (classes s))) else None)"

definition current_function_name :: "Scope \<Rightarrow> error + string option" where
  "current_function_name s =
     Inr (case function s of Some f \<Rightarrow> Some (FuncBase.name f) | None \<Rightarrow> None)"

subsection \<open>Entering and leaving scopes\<close>

text \<open>
  A generator decorated with \<^verbatim>\<open>contextmanager\<close> runs up to its \<^verbatim>\<open>yield\<close> when the
  \<^verbatim>\<open>with\<close> block is entered and from there to its end when the block is left. Each
  half is a function of its own here, named after the method.
\<close>

definition module_scope_enter :: "string \<Rightarrow> Scope \<Rightarrow> Scope" where
  "module_scope_enter prefix s =
     s\<lparr>module := Some prefix, classes := [], function := None, ignored := 0\<rparr>"

definition module_scope_exit :: "Scope \<Rightarrow> error + Scope" where
  "module_scope_exit s =
     (case module s of
        None \<Rightarrow> Inl AssertionError
      | Some m \<Rightarrow> if m = [] then Inl AssertionError else Inr (s\<lparr>module := None\<rparr>))"

definition function_scope_enter :: "FuncBase \<Rightarrow> Scope \<Rightarrow> Scope" where
  "function_scope_enter fdef s =
     (case function s of
        None \<Rightarrow> s\<lparr>function := Some fdef\<rparr>
      | Some _ \<Rightarrow> s\<lparr>ignored := ignored s + 1\<rparr>)"

definition function_scope_exit :: "Scope \<Rightarrow> error + Scope" where
  "function_scope_exit s =
     (if ignored s \<noteq> 0 then Inr (s\<lparr>ignored := ignored s - 1\<rparr>)
      else (case function s of
              None \<Rightarrow> Inl AssertionError
            | Some _ \<Rightarrow> Inr (s\<lparr>function := None\<rparr>)))"

definition enter_class :: "TypeInfo \<Rightarrow> Scope \<Rightarrow> Scope" where
  "enter_class info s =
     (case function s of
        None \<Rightarrow> s\<lparr>classes := classes s @ [info]\<rparr>
      | Some _ \<Rightarrow> s\<lparr>ignored := ignored s + 1\<rparr>)"

definition leave_class :: "Scope \<Rightarrow> error + Scope" where
  "leave_class s =
     (if ignored s \<noteq> 0 then Inr (s\<lparr>ignored := ignored s - 1\<rparr>)
      else if classes s = [] then Inl AssertionError
      else Inr (s\<lparr>classes := butlast (classes s)\<rparr>))"


subsection \<open>With blocks\<close>

text \<open>
  \<^verbatim>\<open>with cm: body\<close> runs the first half of the generator, then the body, then the
  second half. An exception of the body is raised inside the generator at its
  \<^verbatim>\<open>yield\<close>; none of the generators here catches it, so the second half is skipped and
  the exception goes on to the caller. A body is any function from the state to an
  error or a new state.
\<close>

definition with_block ::
  "(Scope \<Rightarrow> Scope) \<Rightarrow> (Scope \<Rightarrow> error + Scope) \<Rightarrow> (Scope \<Rightarrow> error + Scope) \<Rightarrow> Scope \<Rightarrow> error + Scope" where
  "with_block enter exit body s =
     (case body (enter s) of Inl e \<Rightarrow> Inl e | Inr s' \<Rightarrow> exit s')"

definition module_scope :: "string \<Rightarrow> (Scope \<Rightarrow> error + Scope) \<Rightarrow> Scope \<Rightarrow> error + Scope" where
  "module_scope prefix = with_block (module_scope_enter prefix) module_scope_exit"

definition function_scope :: "FuncBase \<Rightarrow> (Scope \<Rightarrow> error + Scope) \<Rightarrow> Scope \<Rightarrow> error + Scope" where
  "function_scope fdef = with_block (function_scope_enter fdef) function_scope_exit"

definition class_scope :: "TypeInfo \<Rightarrow> (Scope \<Rightarrow> error + Scope) \<Rightarrow> Scope \<Rightarrow> error + Scope" where
  "class_scope info = with_block (enter_class info) leave_class"

definition nullcontext :: "(Scope \<Rightarrow> error + Scope) \<Rightarrow> Scope \<Rightarrow> error + Scope" where
  "nullcontext body = body"

subsection \<open>Saving and restoring\<close>

text \<open>
  \<^verbatim>\<open>save\<close> keeps the module name, the innermost class if there is one, and the active
  function if there is one.
\<close>

definition save :: "Scope \<Rightarrow> error + SavedScope" where
  "save s =
     (case module s of
        None \<Rightarrow> Inl AssertionError
      | Some m \<Rightarrow>
          if m = [] then Inl AssertionError
          else Inr (m, if classes s \<noteq> [] then Some (last (classes s)) else None, function s))"

text \<open>
  \<^verbatim>\<open>saved_scope\<close> nests three blocks; the class block and the function block are
  replaced by \<^verbatim>\<open>nullcontext()\<close> when the saved class or function is \<^verbatim>\<open>None\<close>.
\<close>

definition saved_scope :: "SavedScope \<Rightarrow> (Scope \<Rightarrow> error + Scope) \<Rightarrow> Scope \<Rightarrow> error + Scope" where
  "saved_scope saved body =
     (case saved of (m, info, fdef) \<Rightarrow>
        module_scope m
          ((case info of Some i \<Rightarrow> class_scope i | None \<Rightarrow> nullcontext)
             ((case fdef of Some f \<Rightarrow> function_scope f | None \<Rightarrow> nullcontext) body)))"

text \<open>
  The state in which the body of \<^verbatim>\<open>with saved_scope(saved)\<close> starts, and what leaving
  the three blocks does to the state the body ends in. Lemma \<open>saved_scope_unfold\<close>
  below shows that \<^verbatim>\<open>saved_scope\<close> is these two around the body.
\<close>

definition saved_scope_enter :: "SavedScope \<Rightarrow> Scope \<Rightarrow> Scope" where
  "saved_scope_enter saved s =
     (case saved of (m, info, fdef) \<Rightarrow>
        (case fdef of Some f \<Rightarrow> function_scope_enter f | None \<Rightarrow> id)
          ((case info of Some i \<Rightarrow> enter_class i | None \<Rightarrow> id)
             (module_scope_enter m s)))"

definition saved_scope_exit :: "SavedScope \<Rightarrow> Scope \<Rightarrow> error + Scope" where
  "saved_scope_exit saved s =
     (case saved of (m, info, fdef) \<Rightarrow>
        (case (case fdef of Some f \<Rightarrow> function_scope_exit s | None \<Rightarrow> Inr s) of
           Inl e \<Rightarrow> Inl e
         | Inr s1 \<Rightarrow>
             (case (case info of Some i \<Rightarrow> leave_class s1 | None \<Rightarrow> Inr s1) of
                Inl e \<Rightarrow> Inl e
              | Inr s2 \<Rightarrow> module_scope_exit s2)))"

text \<open>The results of the five queries in one state.\<close>

definition queries ::
  "Scope \<Rightarrow> (error + string) \<times> (error + string) \<times> (error + string) \<times>
     (error + string option) \<times> (error + string option)" where
  "queries s =
     (current_module_id s, current_target s, current_full_target s,
      current_type_name s, current_function_name s)"

subsection \<open>Sequences of calls\<close>

text \<open>
  What a caller does to the tracker over time is a list of enters and leaves; \<open>exec\<close>
  runs it and stops at the first failed assertion.
\<close>

datatype event =
    EnterModule string | LeaveModule
  | EnterFunction FuncBase | LeaveFunction
  | EnterClass TypeInfo | LeaveClass

fun step :: "event \<Rightarrow> Scope \<Rightarrow> error + Scope" where
  "step (EnterModule prefix) s = Inr (module_scope_enter prefix s)"
| "step LeaveModule s = module_scope_exit s"
| "step (EnterFunction fdef) s = Inr (function_scope_enter fdef s)"
| "step LeaveFunction s = function_scope_exit s"
| "step (EnterClass info) s = Inr (enter_class info s)"
| "step LeaveClass s = leave_class s"

fun exec :: "event list \<Rightarrow> Scope \<Rightarrow> error + Scope" where
  "exec [] s = Inr s"
| "exec (e # es) s = (case step e s of Inl x \<Rightarrow> Inl x | Inr s' \<Rightarrow> exec es s')"

text \<open>
  Strict pairing: \<open>opened st evs\<close> follows the stack of scopes that are open, the
  innermost first, and is \<^verbatim>\<open>None\<close> as soon as a leave does not match the innermost
  open scope. A sequence is strictly paired when it starts and ends with nothing open;
  it is a point inside a body when \<open>opened []\<close> is defined at all.
\<close>

datatype kind = ModuleKind | FunctionKind | ClassKind

fun pop_kind :: "kind \<Rightarrow> kind list \<Rightarrow> kind list option" where
  "pop_kind k [] = None"
| "pop_kind k (k' # st) = (if k = k' then Some st else None)"

fun opened :: "kind list \<Rightarrow> event list \<Rightarrow> kind list option" where
  "opened st [] = Some st"
| "opened st (EnterModule _ # es) = opened (ModuleKind # st) es"
| "opened st (EnterFunction _ # es) = opened (FunctionKind # st) es"
| "opened st (EnterClass _ # es) = opened (ClassKind # st) es"
| "opened st (LeaveModule # es) =
     (case pop_kind ModuleKind st of None \<Rightarrow> None | Some st' \<Rightarrow> opened st' es)"
| "opened st (LeaveFunction # es) =
     (case pop_kind FunctionKind st of None \<Rightarrow> None | Some st' \<Rightarrow> opened st' es)"
| "opened st (LeaveClass # es) =
     (case pop_kind ClassKind st of None \<Rightarrow> None | Some st' \<Rightarrow> opened st' es)"

definition paired :: "event list \<Rightarrow> bool" where
  "paired evs = (opened [] evs = Some [])"

fun module_free :: "event list \<Rightarrow> bool" where
  "module_free [] = True"
| "module_free (EnterModule _ # es) = False"
| "module_free (LeaveModule # es) = False"
| "module_free (_ # es) = module_free es"

text \<open>
  The discipline the callers keep for module scopes: a module scope is entered only
  while no other scope is open (module scopes are not nested), and under a non-empty
  name. \<open>d\<close> counts the scopes that are open.
\<close>

fun module_discipline :: "nat \<Rightarrow> event list \<Rightarrow> bool" where
  "module_discipline d [] = True"
| "module_discipline d (EnterModule prefix # es) =
     (d = 0 \<and> prefix \<noteq> [] \<and> module_discipline (Suc d) es)"
| "module_discipline d (EnterFunction _ # es) = module_discipline (Suc d) es"
| "module_discipline d (EnterClass _ # es) = module_discipline (Suc d) es"
| "module_discipline d (LeaveModule # es) = module_discipline (d - 1) es"
| "module_discipline d (LeaveFunction # es) = module_discipline (d - 1) es"
| "module_discipline d (LeaveClass # es) = module_discipline (d - 1) es"

fun close_event :: "kind \<Rightarrow> event" where
  "close_event ModuleKind = LeaveModule"
| "close_event FunctionKind = LeaveFunction"
| "close_event ClassKind = LeaveClass"

text \<open>
  The states the absorption rule works in: the ignored depth is never negative, and it
  is zero while no function is active. A new tracker is in such a state, and every
  enter and leave keeps the tracker in one (lemmas \<open>valid_init\<close> and \<open>exec_valid\<close>
  below).
\<close>

definition valid :: "Scope \<Rightarrow> bool" where
  "valid s = (case function s of None \<Rightarrow> ignored s = 0 | Some _ \<Rightarrow> 0 \<le> ignored s)"

section \<open>Properties\<close>

lemma valid_function_scope_enter: "valid s \<Longrightarrow> valid (function_scope_enter fdef s)"
  by (auto simp: valid_def function_scope_enter_def split: option.splits)

lemma valid_enter_class: "valid s \<Longrightarrow> valid (enter_class info s)"
  by (auto simp: valid_def enter_class_def split: option.splits)

lemma function_scope_exit_enter:
  "valid s \<Longrightarrow> function_scope_exit (function_scope_enter fdef s) = Inr s"
  by (auto simp: valid_def function_scope_enter_def function_scope_exit_def split: option.splits)

lemma leave_class_enter: "valid s \<Longrightarrow> leave_class (enter_class info s) = Inr s"
  by (auto simp: valid_def enter_class_def leave_class_def split: option.splits)

lemma valid_function_scope_exit: "valid s \<Longrightarrow> function_scope_exit s = Inr s' \<Longrightarrow> valid s'"
  by (auto simp: valid_def function_scope_exit_def split: option.splits if_splits)

lemma valid_leave_class: "valid s \<Longrightarrow> leave_class s = Inr s' \<Longrightarrow> valid s'"
  by (auto simp: valid_def leave_class_def split: option.splits if_splits)

lemma exec_append:
  "exec (xs @ ys) s = (case exec xs s of Inl e \<Rightarrow> Inl e | Inr s' \<Rightarrow> exec ys s')"
  by (induction xs arbitrary: s) (auto split: sum.splits)

lemma exec_opened:
  "opened st evs = Some [] \<Longrightarrow> module_free evs \<Longrightarrow> valid s \<Longrightarrow>
     exec evs s = exec (map close_event st) s"
proof (induction evs arbitrary: st s)
  case Nil
  then show ?case by simp
next
  case (Cons e es)
  show ?case
  proof (cases e)
    case (EnterModule n)
    with Cons.prems show ?thesis by simp
  next
    case LeaveModule
    with Cons.prems show ?thesis by simp
  next
    case (EnterFunction f)
    with Cons.prems have "exec es (function_scope_enter f s)
        = exec (map close_event (FunctionKind # st)) (function_scope_enter f s)"
      by (intro Cons.IH) (simp_all add: valid_function_scope_enter)
    with Cons.prems EnterFunction show ?thesis
      by (simp add: function_scope_exit_enter)
  next
    case LeaveFunction
    with Cons.prems obtain st' where st: "st = FunctionKind # st'" and op: "opened st' es = Some []"
      by (cases st) (auto split: if_splits)
    show ?thesis
    proof (cases "function_scope_exit s")
      case (Inl x)
      with LeaveFunction st show ?thesis by simp
    next
      case (Inr s')
      with Cons.prems have "valid s'" by (simp add: valid_function_scope_exit)
      with Cons.prems op LeaveFunction have "exec es s' = exec (map close_event st') s'"
        by (intro Cons.IH) simp_all
      with Inr LeaveFunction st show ?thesis by simp
    qed
  next
    case (EnterClass c)
    with Cons.prems have "exec es (enter_class c s)
        = exec (map close_event (ClassKind # st)) (enter_class c s)"
      by (intro Cons.IH) (simp_all add: valid_enter_class)
    with Cons.prems EnterClass show ?thesis
      by (simp add: leave_class_enter)
  next
    case LeaveClass
    with Cons.prems obtain st' where st: "st = ClassKind # st'" and op: "opened st' es = Some []"
      by (cases st) (auto split: if_splits)
    show ?thesis
    proof (cases "leave_class s")
      case (Inl x)
      with LeaveClass st show ?thesis by simp
    next
      case (Inr s')
      with Cons.prems have "valid s'" by (simp add: valid_leave_class)
      with Cons.prems op LeaveClass have "exec es s' = exec (map close_event st') s'"
        by (intro Cons.IH) simp_all
      with Inr LeaveClass st show ?thesis by simp
    qed
  qed
qed

lemma exec_paired: "paired evs \<Longrightarrow> module_free evs \<Longrightarrow> valid s \<Longrightarrow> exec evs s = Inr s"
  using exec_opened [of "[]" evs s] by (simp add: paired_def)


lemma valid_init: "valid init"
  by (simp add: valid_def init_def)

lemma valid_module_scope_enter: "valid (module_scope_enter prefix s)"
  by (simp add: valid_def module_scope_enter_def)

lemma valid_module_scope_exit: "valid s \<Longrightarrow> module_scope_exit s = Inr s' \<Longrightarrow> valid s'"
  by (auto simp: valid_def module_scope_exit_def split: option.splits if_splits)

lemma valid_step: "valid s \<Longrightarrow> step e s = Inr s' \<Longrightarrow> valid s'"
  by (cases e)
     (auto simp: valid_module_scope_enter valid_function_scope_enter valid_enter_class
        dest: valid_module_scope_exit valid_function_scope_exit valid_leave_class)

lemma exec_valid: "valid s \<Longrightarrow> exec evs s = Inr s' \<Longrightarrow> valid s'"
proof (induction evs arbitrary: s)
  case Nil
  then show ?case by simp
next
  case (Cons e es)
  then obtain s1 where s1: "step e s = Inr s1" and rest: "exec es s1 = Inr s'"
    by (auto split: sum.splits)
  from Cons.prems(1) s1 have "valid s1" by (rule valid_step)
  then show ?case using rest by (rule Cons.IH)
qed

lemma module_scope_exit_enter:
  "prefix \<noteq> [] \<Longrightarrow> module_scope_exit (module_scope_enter prefix init) = Inr init"
  by (simp add: module_scope_exit_def module_scope_enter_def init_def)

lemma exec_disciplined:
  "opened st evs = Some [] \<Longrightarrow> module_discipline (length st) evs \<Longrightarrow> valid s \<Longrightarrow>
   exec (map close_event st) s = Inr init \<Longrightarrow> exec evs s = Inr init"
proof (induction evs arbitrary: st s)
  case Nil
  then show ?case by simp
next
  case (Cons e es)
  show ?case
  proof (cases e)
    case (EnterModule n)
    with Cons.prems have st: "st = []" and n: "n \<noteq> []" and s: "s = init"
      by simp_all
    have "exec es (module_scope_enter n init) = Inr init"
    proof (rule Cons.IH [where st = "[ModuleKind]"])
      from Cons.prems EnterModule st show "opened [ModuleKind] es = Some []" by simp
      from Cons.prems EnterModule st show "module_discipline (length [ModuleKind]) es" by simp
      show "valid (module_scope_enter n init)" by (rule valid_module_scope_enter)
      from n show "exec (map close_event [ModuleKind]) (module_scope_enter n init) = Inr init"
        by (simp add: module_scope_exit_enter)
    qed
    with EnterModule s show ?thesis by simp
  next
    case (EnterFunction f)
    have "exec es (function_scope_enter f s) = Inr init"
    proof (rule Cons.IH [where st = "FunctionKind # st"])
      from Cons.prems EnterFunction show "opened (FunctionKind # st) es = Some []" by simp
      from Cons.prems EnterFunction show "module_discipline (length (FunctionKind # st)) es" by simp
      from Cons.prems show "valid (function_scope_enter f s)"
        by (simp add: valid_function_scope_enter)
      from Cons.prems show
        "exec (map close_event (FunctionKind # st)) (function_scope_enter f s) = Inr init"
        by (simp add: function_scope_exit_enter)
    qed
    with EnterFunction show ?thesis by simp
  next
    case (EnterClass c)
    have "exec es (enter_class c s) = Inr init"
    proof (rule Cons.IH [where st = "ClassKind # st"])
      from Cons.prems EnterClass show "opened (ClassKind # st) es = Some []" by simp
      from Cons.prems EnterClass show "module_discipline (length (ClassKind # st)) es" by simp
      from Cons.prems show "valid (enter_class c s)"
        by (simp add: valid_enter_class)
      from Cons.prems show
        "exec (map close_event (ClassKind # st)) (enter_class c s) = Inr init"
        by (simp add: leave_class_enter)
    qed
    with EnterClass show ?thesis by simp
  next
    case LeaveModule
    with Cons.prems obtain st' where st: "st = ModuleKind # st'" and op: "opened st' es = Some []"
      by (cases st) (auto split: if_splits)
    from Cons.prems st obtain s' where s': "module_scope_exit s = Inr s'"
        and cl: "exec (map close_event st') s' = Inr init"
      by (auto split: sum.splits)
    from Cons.prems s' have "valid s'" by (simp add: valid_module_scope_exit)
    with op Cons.prems LeaveModule st cl have "exec es s' = Inr init"
      by (intro Cons.IH [where st = st']) simp_all
    with LeaveModule s' show ?thesis by simp
  next
    case LeaveFunction
    with Cons.prems obtain st' where st: "st = FunctionKind # st'" and op: "opened st' es = Some []"
      by (cases st) (auto split: if_splits)
    from Cons.prems st obtain s' where s': "function_scope_exit s = Inr s'"
        and cl: "exec (map close_event st') s' = Inr init"
      by (auto split: sum.splits)
    from Cons.prems s' have "valid s'" by (simp add: valid_function_scope_exit)
    with op Cons.prems LeaveFunction st cl have "exec es s' = Inr init"
      by (intro Cons.IH [where st = st']) simp_all
    with LeaveFunction s' show ?thesis by simp
  next
    case LeaveClass
    with Cons.prems obtain st' where st: "st = ClassKind # st'" and op: "opened st' es = Some []"
      by (cases st) (auto split: if_splits)
    from Cons.prems st obtain s' where s': "leave_class s = Inr s'"
        and cl: "exec (map close_event st') s' = Inr init"
      by (auto split: sum.splits)
    from Cons.prems s' have "valid s'" by (simp add: valid_leave_class)
    with op Cons.prems LeaveClass st cl have "exec es s' = Inr init"
      by (intro Cons.IH [where st = st']) simp_all
    with LeaveClass s' show ?thesis by simp
  qed
qed

lemma close_init: "st \<noteq> [] \<Longrightarrow> exec (map close_event st) init = Inl AssertionError"
proof (cases st)
  case Nil
  assume "st \<noteq> []"
  with Nil show ?thesis by simp
next
  case (Cons k ks)
  then show ?thesis
    by (cases k)
       (simp_all add: init_def module_scope_exit_def function_scope_exit_def leave_class_def)
qed

lemma exec_opened_outcome:
  "opened st evs = Some [] \<Longrightarrow> valid s \<Longrightarrow>
     exec evs s = Inl AssertionError
   \<or> exec evs s = exec (map close_event st) s
   \<or> exec evs s = Inr init"
proof (induction evs arbitrary: st s)
  case Nil
  then show ?case by simp
next
  case (Cons e es)
  show ?case
  proof (cases e)
    case (EnterModule n)
    let ?s1 = "module_scope_enter n s"
    from Cons.prems EnterModule have op: "opened (ModuleKind # st) es = Some []" by simp
    have v: "valid ?s1" by (rule valid_module_scope_enter)
    have cl: "exec (map close_event (ModuleKind # st)) ?s1 = Inl AssertionError
        \<or> exec (map close_event (ModuleKind # st)) ?s1 = Inr init"
    proof (cases "n = []")
      case True
      then show ?thesis by (simp add: module_scope_exit_def module_scope_enter_def)
    next
      case False
      then have "module_scope_exit ?s1 = Inr init"
        by (simp add: module_scope_exit_def module_scope_enter_def init_def)
      then show ?thesis using close_init [of st] by (cases "st = []") simp_all
    qed
    from Cons.IH [OF op v] cl EnterModule show ?thesis by auto
  next
    case (EnterFunction f)
    from Cons.prems EnterFunction have op: "opened (FunctionKind # st) es = Some []" by simp
    from Cons.prems have v: "valid (function_scope_enter f s)"
      by (simp add: valid_function_scope_enter)
    from Cons.IH [OF op v] Cons.prems EnterFunction show ?thesis
      by (simp add: function_scope_exit_enter)
  next
    case (EnterClass c)
    from Cons.prems EnterClass have op: "opened (ClassKind # st) es = Some []" by simp
    from Cons.prems have v: "valid (enter_class c s)"
      by (simp add: valid_enter_class)
    from Cons.IH [OF op v] Cons.prems EnterClass show ?thesis
      by (simp add: leave_class_enter)
  next
    case LeaveModule
    with Cons.prems obtain st' where st: "st = ModuleKind # st'" and op: "opened st' es = Some []"
      by (cases st) (auto split: if_splits)
    show ?thesis
    proof (cases "module_scope_exit s")
      case (Inl x)
      with LeaveModule show ?thesis by (cases x) simp
    next
      case (Inr s')
      with Cons.prems have "valid s'" by (simp add: valid_module_scope_exit)
      from Cons.IH [OF op this] Inr LeaveModule st show ?thesis by simp
    qed
  next
    case LeaveFunction
    with Cons.prems obtain st' where st: "st = FunctionKind # st'" and op: "opened st' es = Some []"
      by (cases st) (auto split: if_splits)
    show ?thesis
    proof (cases "function_scope_exit s")
      case (Inl x)
      with LeaveFunction show ?thesis by (cases x) simp
    next
      case (Inr s')
      with Cons.prems have "valid s'" by (simp add: valid_function_scope_exit)
      from Cons.IH [OF op this] Inr LeaveFunction st show ?thesis by simp
    qed
  next
    case LeaveClass
    with Cons.prems obtain st' where st: "st = ClassKind # st'" and op: "opened st' es = Some []"
      by (cases st) (auto split: if_splits)
    show ?thesis
    proof (cases "leave_class s")
      case (Inl x)
      with LeaveClass show ?thesis by (cases x) simp
    next
      case (Inr s')
      with Cons.prems have "valid s'" by (simp add: valid_leave_class)
      from Cons.IH [OF op this] Inr LeaveClass st show ?thesis by simp
    qed
  qed
qed

lemma saved_scope_unfold:
  "saved_scope saved body s =
     (case body (saved_scope_enter saved s) of
        Inl e \<Rightarrow> Inl e
      | Inr t \<Rightarrow> saved_scope_exit saved t)"
  by (cases saved)
     (auto simp: saved_scope_def saved_scope_enter_def saved_scope_exit_def with_block_def
        module_scope_def class_scope_def function_scope_def nullcontext_def
        split: option.splits sum.splits)

lemma valid_saved_scope_enter: "valid (saved_scope_enter saved s)"
  by (cases saved)
     (auto simp: valid_def saved_scope_enter_def module_scope_enter_def enter_class_def
        function_scope_enter_def split: option.splits)

lemma saved_scope_exit_enter:
  "fst saved \<noteq> [] \<Longrightarrow> saved_scope_exit saved (saved_scope_enter saved s) = Inr init"
  by (cases saved)
     (auto simp: saved_scope_exit_def saved_scope_enter_def module_scope_enter_def
        module_scope_exit_def enter_class_def leave_class_def function_scope_enter_def
        function_scope_exit_def init_def split: option.splits)

lemma save_module: "save s = Inr saved \<Longrightarrow> fst saved \<noteq> []"
  by (auto simp: save_def split: option.splits if_splits)

lemma exec_absorbed:
  "opened st evs = Some st' \<Longrightarrow> module_free evs \<Longrightarrow> function s = Some f \<Longrightarrow>
   int (length st) < ignored s \<Longrightarrow>
     exec evs s = Inr (s\<lparr>ignored := ignored s - int (length st) + int (length st')\<rparr>)"
proof (induction evs arbitrary: st s)
  case Nil
  then show ?case by simp
next
  case (Cons e es)
  show ?case
  proof (cases e)
    case (EnterModule n)
    with Cons.prems show ?thesis by simp
  next
    case LeaveModule
    with Cons.prems show ?thesis by simp
  next
    case (EnterFunction g)
    let ?s1 = "s\<lparr>ignored := ignored s + 1\<rparr>"
    from Cons.prems EnterFunction have "exec es ?s1 =
        Inr (?s1\<lparr>ignored := ignored ?s1 - int (length (FunctionKind # st)) + int (length st')\<rparr>)"
      by (intro Cons.IH) simp_all
    with Cons.prems EnterFunction show ?thesis
      by (simp add: function_scope_enter_def)
  next
    case LeaveFunction
    with Cons.prems obtain st0 where st: "st = FunctionKind # st0" and op: "opened st0 es = Some st'"
      by (cases st) (auto split: if_splits)
    let ?s1 = "s\<lparr>ignored := ignored s - 1\<rparr>"
    from Cons.prems LeaveFunction st op have "exec es ?s1 =
        Inr (?s1\<lparr>ignored := ignored ?s1 - int (length st0) + int (length st')\<rparr>)"
      by (intro Cons.IH) simp_all
    with Cons.prems LeaveFunction st show ?thesis
      by (simp add: function_scope_exit_def)
  next
    case (EnterClass c)
    let ?s1 = "s\<lparr>ignored := ignored s + 1\<rparr>"
    from Cons.prems EnterClass have "exec es ?s1 =
        Inr (?s1\<lparr>ignored := ignored ?s1 - int (length (ClassKind # st)) + int (length st')\<rparr>)"
      by (intro Cons.IH) simp_all
    with Cons.prems EnterClass show ?thesis
      by (simp add: enter_class_def)
  next
    case LeaveClass
    with Cons.prems obtain st0 where st: "st = ClassKind # st0" and op: "opened st0 es = Some st'"
      by (cases st) (auto split: if_splits)
    let ?s1 = "s\<lparr>ignored := ignored s - 1\<rparr>"
    from Cons.prems LeaveClass st op have "exec es ?s1 =
        Inr (?s1\<lparr>ignored := ignored ?s1 - int (length st0) + int (length st')\<rparr>)"
      by (intro Cons.IH) simp_all
    with Cons.prems LeaveClass st show ?thesis
      by (simp add: leave_class_def)
  qed
qed

lemma step_ignored_nonneg: "step e s = Inr s' \<Longrightarrow> 0 \<le> ignored s \<Longrightarrow> 0 \<le> ignored s'"
  by (cases e)
     (auto simp: module_scope_enter_def module_scope_exit_def function_scope_enter_def
        function_scope_exit_def enter_class_def leave_class_def
        split: option.splits if_splits)

lemma exec_ignored_nonneg: "exec evs s = Inr s' \<Longrightarrow> 0 \<le> ignored s \<Longrightarrow> 0 \<le> ignored s'"
proof (induction evs arbitrary: s)
  case Nil
  then show ?case by simp
next
  case (Cons e es)
  then obtain s1 where s1: "step e s = Inr s1" and rest: "exec es s1 = Inr s'"
    by (auto split: sum.splits)
  from s1 Cons.prems have "0 \<le> ignored s1" by (simp add: step_ignored_nonneg)
  with rest show ?case by (rule Cons.IH)
qed


subsection \<open>Queries\<close>

text \<open>
  C1. In every state in which a module is active (the module attribute holds a
  non-empty name), \<^verbatim>\<open>current_target\<close> returns the fully-qualified name of the active
  function when there is one, and the module name otherwise.
\<close>

theorem current_target_spec:
  assumes "module s = Some m" and "m \<noteq> []"
  shows "current_target s =
           Inr (case function s of Some f \<Rightarrow> FuncBase.fullname f | None \<Rightarrow> m)"
  using assms by (simp add: current_target_def split: option.split)

theorem current_target_spec_witness:
  "current_target \<lparr>module = Some ''m'', classes = [],
       function = Some \<lparr>FuncBase.name = ''f'', FuncBase.fullname = ''m.f''\<rparr>, ignored = 1\<rparr>
     = Inr ''m.f''"
  using current_target_spec [of "\<lparr>module = Some ''m'', classes = [],
       function = Some \<lparr>FuncBase.name = ''f'', FuncBase.fullname = ''m.f''\<rparr>, ignored = 1\<rparr>" "''m''"]
  by simp

text \<open>
  C5. In every state in which a module is active, \<^verbatim>\<open>current_full_target\<close> returns the
  fully-qualified name of the active function when there is one; otherwise that of
  the innermost class when the class stack is not empty; otherwise the module name.
  In particular, right after a class is entered with no function active,
  \<^verbatim>\<open>current_target\<close> is the module name and \<^verbatim>\<open>current_full_target\<close> is the
  fully-qualified name of that class.
\<close>

theorem current_full_target_spec:
  assumes "module s = Some m" and "m \<noteq> []"
  shows "current_full_target s =
           Inr (case function s of
                  Some f \<Rightarrow> FuncBase.fullname f
                | None \<Rightarrow> if classes s \<noteq> [] then TypeInfo.fullname (last (classes s)) else m)
         \<and> (function s = None \<longrightarrow>
              current_target (enter_class info s) = Inr m
            \<and> current_full_target (enter_class info s) = Inr (TypeInfo.fullname info))"
  using assms
  by (simp add: current_full_target_def current_target_def enter_class_def split: option.split)

theorem current_full_target_spec_witness:
  "current_full_target \<lparr>module = Some ''m'',
       classes = [\<lparr>TypeInfo.name = ''A'', TypeInfo.fullname = ''m.A''\<rparr>],
       function = None, ignored = 0\<rparr> = Inr ''m.A''
   \<and> current_target (enter_class \<lparr>TypeInfo.name = ''B'', TypeInfo.fullname = ''m.A.B''\<rparr>
        \<lparr>module = Some ''m'', classes = [\<lparr>TypeInfo.name = ''A'', TypeInfo.fullname = ''m.A''\<rparr>],
         function = None, ignored = 0\<rparr>) = Inr ''m''
   \<and> current_full_target (enter_class \<lparr>TypeInfo.name = ''B'', TypeInfo.fullname = ''m.A.B''\<rparr>
        \<lparr>module = Some ''m'', classes = [\<lparr>TypeInfo.name = ''A'', TypeInfo.fullname = ''m.A''\<rparr>],
         function = None, ignored = 0\<rparr>) = Inr ''m.A.B''"
  using current_full_target_spec [of "\<lparr>module = Some ''m'',
       classes = [\<lparr>TypeInfo.name = ''A'', TypeInfo.fullname = ''m.A''\<rparr>],
       function = None, ignored = 0\<rparr>" "''m''"
       "\<lparr>TypeInfo.name = ''B'', TypeInfo.fullname = ''m.A.B''\<rparr>"]
  by simp

text \<open>
  C9. There is a state with an active module and an active function whose
  fully-qualified name is the empty string, in which \<^verbatim>\<open>current_target\<close> returns the
  empty string, which is neither the module name nor the short name of the function.
\<close>

theorem current_target_empty_fullname:
  "\<exists>s m f. module s = Some m \<and> m \<noteq> [] \<and> function s = Some f
     \<and> FuncBase.fullname f = [] \<and> current_target s = Inr []
     \<and> [] \<noteq> m \<and> [] \<noteq> FuncBase.name f"
proof -
  let ?f = "\<lparr>FuncBase.name = ''f'', FuncBase.fullname = []\<rparr>"
  let ?s = "\<lparr>module = Some ''m'', classes = [], function = Some ?f, ignored = 0\<rparr>"
  have "module ?s = Some ''m'' \<and> ''m'' \<noteq> [] \<and> function ?s = Some ?f
     \<and> FuncBase.fullname ?f = [] \<and> current_target ?s = Inr []
     \<and> [] \<noteq> ''m'' \<and> [] \<noteq> FuncBase.name ?f"
    by (simp add: current_target_def)
  then show ?thesis by blast
qed

text \<open>
  C6, as amended. In every state with no active module (the module attribute is
  \<^verbatim>\<open>None\<close> or the empty string), \<^verbatim>\<open>current_module_id\<close>, \<^verbatim>\<open>current_target\<close> and
  \<^verbatim>\<open>current_full_target\<close> fail their assertion. \<^verbatim>\<open>current_type_name\<close> and
  \<^verbatim>\<open>current_function_name\<close> do not fail: they return the short name of the innermost
  class and of the active function, or \<^verbatim>\<open>None\<close>.
\<close>

theorem queries_without_module:
  assumes "module s = None \<or> module s = Some []"
  shows "current_module_id s = Inl AssertionError
       \<and> current_target s = Inl AssertionError
       \<and> current_full_target s = Inl AssertionError
       \<and> current_type_name s =
           Inr (if classes s \<noteq> [] then Some (TypeInfo.name (last (classes s))) else None)
       \<and> current_function_name s = Inr (map_option FuncBase.name (function s))"
  using assms
  by (auto simp: current_module_id_def current_target_def current_full_target_def
        current_type_name_def current_function_name_def split: option.splits)

theorem queries_without_module_witness:
  "current_module_id init = Inl AssertionError
   \<and> current_target init = Inl AssertionError
   \<and> current_full_target init = Inl AssertionError
   \<and> current_type_name init = Inr None
   \<and> current_function_name init = Inr None"
  using queries_without_module [of init] by (simp add: init_def)

text \<open>
  The claim as first stated (every query fails when no module is active) is false in
  the state a new tracker starts in: the two short-name queries return \<^verbatim>\<open>None\<close>.
\<close>

theorem queries_without_module_counterexample:
  "module init = None
   \<and> current_type_name init = Inr None
   \<and> current_function_name init = Inr None"
  by (simp add: init_def current_type_name_def current_function_name_def)

subsection \<open>Absorbed scopes\<close>

text \<open>
  C3. In every state with an active function and a non-negative ignored depth,
  entering a function adds exactly 1 to the ignored depth and changes nothing else
  (the active function stays); a strictly paired body of function and class scopes
  runs back to that state; and the matching leave then gives back the state before
  the enter, so the depth is at its prior value and the active function is unchanged.
\<close>

theorem nested_function_scope:
  assumes "function s = Some f" and "0 \<le> ignored s"
    and "paired body" and "module_free body"
  shows "function_scope_enter g s = s\<lparr>ignored := ignored s + 1\<rparr>
       \<and> exec body (function_scope_enter g s) = Inr (function_scope_enter g s)
       \<and> function_scope_exit (function_scope_enter g s) = Inr s"
proof -
  from assms(1,2) have v: "valid s" by (simp add: valid_def)
  then have "valid (function_scope_enter g s)" by (rule valid_function_scope_enter)
  with assms(3,4) have "exec body (function_scope_enter g s) = Inr (function_scope_enter g s)"
    by (rule exec_paired)
  moreover from assms(1) have "function_scope_enter g s = s\<lparr>ignored := ignored s + 1\<rparr>"
    by (simp add: function_scope_enter_def)
  moreover from v have "function_scope_exit (function_scope_enter g s) = Inr s"
    by (rule function_scope_exit_enter)
  ultimately show ?thesis by simp
qed

theorem nested_function_scope_witness:
  "function_scope_enter \<lparr>FuncBase.name = ''g'', FuncBase.fullname = ''m.f.g''\<rparr>
      \<lparr>module = Some ''m'', classes = [],
       function = Some \<lparr>FuncBase.name = ''f'', FuncBase.fullname = ''m.f''\<rparr>, ignored = 0\<rparr>
     = \<lparr>module = Some ''m'', classes = [],
        function = Some \<lparr>FuncBase.name = ''f'', FuncBase.fullname = ''m.f''\<rparr>, ignored = 1\<rparr>
   \<and> function_scope_exit
       \<lparr>module = Some ''m'', classes = [],
        function = Some \<lparr>FuncBase.name = ''f'', FuncBase.fullname = ''m.f''\<rparr>, ignored = 1\<rparr>
     = Inr \<lparr>module = Some ''m'', classes = [],
        function = Some \<lparr>FuncBase.name = ''f'', FuncBase.fullname = ''m.f''\<rparr>, ignored = 0\<rparr>"
  using nested_function_scope [of
      "\<lparr>module = Some ''m'', classes = [],
        function = Some \<lparr>FuncBase.name = ''f'', FuncBase.fullname = ''m.f''\<rparr>, ignored = 0\<rparr>"
      "\<lparr>FuncBase.name = ''f'', FuncBase.fullname = ''m.f''\<rparr>"
      "[EnterClass \<lparr>TypeInfo.name = ''A'', TypeInfo.fullname = ''m.f.A''\<rparr>, LeaveClass]"
      "\<lparr>FuncBase.name = ''g'', FuncBase.fullname = ''m.f.g''\<rparr>"]
  by (simp add: paired_def function_scope_enter_def)

text \<open>
  C7. In every state with an active function and a non-negative ignored depth,
  entering a class adds 1 to the ignored depth and changes nothing else, so the class
  stack is as before. At every point of the class body, that is after any sequence of
  function and class enters and leaves that closes no scope it did not open, only the
  ignored depth differs from the state before the class was entered, and
  \<^verbatim>\<open>current_full_target\<close> has the result it had there.
\<close>

theorem class_inside_function:
  assumes "function s = Some f" and "0 \<le> ignored s"
    and "opened [] evs = Some st" and "module_free evs"
  shows "enter_class info s = s\<lparr>ignored := ignored s + 1\<rparr>
       \<and> classes (enter_class info s) = classes s
       \<and> exec evs (enter_class info s) = Inr (s\<lparr>ignored := ignored s + 1 + int (length st)\<rparr>)
       \<and> current_full_target (s\<lparr>ignored := ignored s + 1 + int (length st)\<rparr>)
           = current_full_target s"
proof -
  from assms(1) have e: "enter_class info s = s\<lparr>ignored := ignored s + 1\<rparr>"
    by (simp add: enter_class_def)
  from assms have "exec evs (s\<lparr>ignored := ignored s + 1\<rparr>) =
      Inr (s\<lparr>ignored := ignored s + 1\<rparr>
            \<lparr>ignored := ignored (s\<lparr>ignored := ignored s + 1\<rparr>) - int (length ([]::kind list))
                + int (length st)\<rparr>)"
    by (intro exec_absorbed [where f = f]) simp_all
  with e show ?thesis by (simp add: current_full_target_def split: option.split)
qed

theorem class_inside_function_witness:
  "exec [EnterFunction \<lparr>FuncBase.name = ''g'', FuncBase.fullname = ''m.f.g''\<rparr>, LeaveFunction,
         EnterClass \<lparr>TypeInfo.name = ''B'', TypeInfo.fullname = ''m.f.A.B''\<rparr>]
     (enter_class \<lparr>TypeInfo.name = ''A'', TypeInfo.fullname = ''m.f.A''\<rparr>
        \<lparr>module = Some ''m'', classes = [],
         function = Some \<lparr>FuncBase.name = ''f'', FuncBase.fullname = ''m.f''\<rparr>, ignored = 0\<rparr>)
     = Inr \<lparr>module = Some ''m'', classes = [],
         function = Some \<lparr>FuncBase.name = ''f'', FuncBase.fullname = ''m.f''\<rparr>, ignored = 2\<rparr>
   \<and> current_full_target \<lparr>module = Some ''m'', classes = [],
         function = Some \<lparr>FuncBase.name = ''f'', FuncBase.fullname = ''m.f''\<rparr>, ignored = 2\<rparr>
     = Inr ''m.f''"
  using class_inside_function [of
      "\<lparr>module = Some ''m'', classes = [],
        function = Some \<lparr>FuncBase.name = ''f'', FuncBase.fullname = ''m.f''\<rparr>, ignored = 0\<rparr>"
      "\<lparr>FuncBase.name = ''f'', FuncBase.fullname = ''m.f''\<rparr>"
      "[EnterFunction \<lparr>FuncBase.name = ''g'', FuncBase.fullname = ''m.f.g''\<rparr>, LeaveFunction,
        EnterClass \<lparr>TypeInfo.name = ''B'', TypeInfo.fullname = ''m.f.A.B''\<rparr>]"
      "[ClassKind]"
      "\<lparr>TypeInfo.name = ''A'', TypeInfo.fullname = ''m.f.A''\<rparr>"]
  by (simp add: current_full_target_def enter_class_def function_scope_enter_def
        function_scope_exit_def)

text \<open>
  C8. In every state reached from a new tracker by any sequence of enters and leaves
  that raised nothing, paired or not, the ignored depth is non-negative; and where it
  is zero, leaving a function or a class leaves it at zero: the decrement is taken
  only at a non-zero depth.
\<close>

theorem ignored_nonneg:
  assumes "exec evs init = Inr s"
  shows "0 \<le> ignored s
       \<and> (ignored s = 0 \<longrightarrow>
            (\<forall>s'. function_scope_exit s = Inr s' \<or> leave_class s = Inr s' \<longrightarrow> ignored s' = 0))"
proof -
  from assms have "0 \<le> ignored s"
    by (rule exec_ignored_nonneg) (simp add: init_def)
  moreover have "ignored s = 0 \<longrightarrow>
      (\<forall>s'. function_scope_exit s = Inr s' \<or> leave_class s = Inr s' \<longrightarrow> ignored s' = 0)"
    by (auto simp: function_scope_exit_def leave_class_def split: option.splits if_splits)
  ultimately show ?thesis by (rule conjI)
qed

theorem ignored_nonneg_witness:
  "exec [EnterModule ''m'', EnterFunction \<lparr>FuncBase.name = ''f'', FuncBase.fullname = ''m.f''\<rparr>,
         EnterClass \<lparr>TypeInfo.name = ''A'', TypeInfo.fullname = ''m.f.A''\<rparr>, LeaveFunction] init
     = Inr \<lparr>module = Some ''m'', classes = [],
         function = Some \<lparr>FuncBase.name = ''f'', FuncBase.fullname = ''m.f''\<rparr>, ignored = 0\<rparr>
   \<and> 0 \<le> ignored \<lparr>module = Some ''m'', classes = [],
         function = Some \<lparr>FuncBase.name = ''f'', FuncBase.fullname = ''m.f''\<rparr>, ignored = 0\<rparr>"
proof -
  have e: "exec [EnterModule ''m'', EnterFunction \<lparr>FuncBase.name = ''f'', FuncBase.fullname = ''m.f''\<rparr>,
         EnterClass \<lparr>TypeInfo.name = ''A'', TypeInfo.fullname = ''m.f.A''\<rparr>, LeaveFunction] init
     = Inr \<lparr>module = Some ''m'', classes = [],
         function = Some \<lparr>FuncBase.name = ''f'', FuncBase.fullname = ''m.f''\<rparr>, ignored = 0\<rparr>"
    by (simp add: init_def module_scope_enter_def function_scope_enter_def enter_class_def
          function_scope_exit_def)
  from ignored_nonneg [OF e] have "0 \<le> ignored \<lparr>module = Some ''m'', classes = [],
         function = Some \<lparr>FuncBase.name = ''f'', FuncBase.fullname = ''m.f''\<rparr>, ignored = 0\<rparr>"
    by (rule conjunct1)
  with e show ?thesis by (rule conjI)
qed

subsection \<open>Round trips\<close>

text \<open>
  C4. A strictly paired sequence of module, function and class enters and leaves ends
  in the state it started in. Without a module scope in it, this holds from every
  valid state, and no assertion fails. With module scopes that follow the discipline
  (non-empty names, none nested), it holds from the state of a new tracker, which is
  also the state between two module passes, and no assertion fails. And whatever the
  sequence does with module scopes, if it runs from the state of a new tracker without
  a failed assertion, it ends in that state.
\<close>

theorem paired_round_trip:
  assumes "paired evs"
  shows "(valid s \<and> module_free evs \<longrightarrow> exec evs s = Inr s)
       \<and> (module_discipline 0 evs \<longrightarrow> exec evs init = Inr init)
       \<and> (\<forall>t. exec evs init = Inr t \<longrightarrow> t = init)"
proof (intro conjI impI allI)
  assume "valid s \<and> module_free evs"
  with assms show "exec evs s = Inr s" by (simp add: exec_paired)
next
  assume "module_discipline 0 evs"
  with assms show "exec evs init = Inr init"
    using exec_disciplined [of "[]" evs init] by (simp add: paired_def valid_init)
next
  fix t
  assume "exec evs init = Inr t"
  with assms show "t = init"
    using exec_opened_outcome [of "[]" evs init] by (auto simp: paired_def valid_init)
qed

theorem paired_round_trip_witness:
  "exec [EnterClass \<lparr>TypeInfo.name = ''A'', TypeInfo.fullname = ''m.A''\<rparr>,
         EnterFunction \<lparr>FuncBase.name = ''f'', FuncBase.fullname = ''m.A.f''\<rparr>,
         EnterFunction \<lparr>FuncBase.name = ''g'', FuncBase.fullname = ''m.A.f.g''\<rparr>,
         LeaveFunction, LeaveFunction, LeaveClass]
        \<lparr>module = Some ''m'', classes = [], function = None, ignored = 0\<rparr>
     = Inr \<lparr>module = Some ''m'', classes = [], function = None, ignored = 0\<rparr>
   \<and> exec [EnterModule ''m'',
         EnterClass \<lparr>TypeInfo.name = ''A'', TypeInfo.fullname = ''m.A''\<rparr>,
         EnterFunction \<lparr>FuncBase.name = ''f'', FuncBase.fullname = ''m.A.f''\<rparr>,
         EnterFunction \<lparr>FuncBase.name = ''g'', FuncBase.fullname = ''m.A.f.g''\<rparr>,
         LeaveFunction, LeaveFunction, LeaveClass, LeaveModule,
         EnterModule ''n'', LeaveModule] init
     = Inr init"
proof -
  have p1: "paired [EnterClass \<lparr>TypeInfo.name = ''A'', TypeInfo.fullname = ''m.A''\<rparr>,
         EnterFunction \<lparr>FuncBase.name = ''f'', FuncBase.fullname = ''m.A.f''\<rparr>,
         EnterFunction \<lparr>FuncBase.name = ''g'', FuncBase.fullname = ''m.A.f.g''\<rparr>,
         LeaveFunction, LeaveFunction, LeaveClass]"
    by (simp add: paired_def)
  have f1: "module_free [EnterClass \<lparr>TypeInfo.name = ''A'', TypeInfo.fullname = ''m.A''\<rparr>,
         EnterFunction \<lparr>FuncBase.name = ''f'', FuncBase.fullname = ''m.A.f''\<rparr>,
         EnterFunction \<lparr>FuncBase.name = ''g'', FuncBase.fullname = ''m.A.f.g''\<rparr>,
         LeaveFunction, LeaveFunction, LeaveClass]"
    by simp
  have v1: "valid \<lparr>module = Some ''m'', classes = [], function = None, ignored = 0\<rparr>"
    by (simp add: valid_def)
  from f1 v1 have a: "exec [EnterClass \<lparr>TypeInfo.name = ''A'', TypeInfo.fullname = ''m.A''\<rparr>,
         EnterFunction \<lparr>FuncBase.name = ''f'', FuncBase.fullname = ''m.A.f''\<rparr>,
         EnterFunction \<lparr>FuncBase.name = ''g'', FuncBase.fullname = ''m.A.f.g''\<rparr>,
         LeaveFunction, LeaveFunction, LeaveClass]
        \<lparr>module = Some ''m'', classes = [], function = None, ignored = 0\<rparr>
     = Inr \<lparr>module = Some ''m'', classes = [], function = None, ignored = 0\<rparr>"
    using paired_round_trip [OF p1, THEN conjunct1] by simp
  have p2: "paired [EnterModule ''m'',
         EnterClass \<lparr>TypeInfo.name = ''A'', TypeInfo.fullname = ''m.A''\<rparr>,
         EnterFunction \<lparr>FuncBase.name = ''f'', FuncBase.fullname = ''m.A.f''\<rparr>,
         EnterFunction \<lparr>FuncBase.name = ''g'', FuncBase.fullname = ''m.A.f.g''\<rparr>,
         LeaveFunction, LeaveFunction, LeaveClass, LeaveModule,
         EnterModule ''n'', LeaveModule]"
    by (simp add: paired_def)
  have d2: "module_discipline 0 [EnterModule ''m'',
         EnterClass \<lparr>TypeInfo.name = ''A'', TypeInfo.fullname = ''m.A''\<rparr>,
         EnterFunction \<lparr>FuncBase.name = ''f'', FuncBase.fullname = ''m.A.f''\<rparr>,
         EnterFunction \<lparr>FuncBase.name = ''g'', FuncBase.fullname = ''m.A.f.g''\<rparr>,
         LeaveFunction, LeaveFunction, LeaveClass, LeaveModule,
         EnterModule ''n'', LeaveModule]"
    by simp
  from d2 have b: "exec [EnterModule ''m'',
         EnterClass \<lparr>TypeInfo.name = ''A'', TypeInfo.fullname = ''m.A''\<rparr>,
         EnterFunction \<lparr>FuncBase.name = ''f'', FuncBase.fullname = ''m.A.f''\<rparr>,
         EnterFunction \<lparr>FuncBase.name = ''g'', FuncBase.fullname = ''m.A.f.g''\<rparr>,
         LeaveFunction, LeaveFunction, LeaveClass, LeaveModule,
         EnterModule ''n'', LeaveModule] init
     = Inr init"
    using paired_round_trip [OF p2, THEN conjunct2, THEN conjunct1] by simp
  from a b show ?thesis by (rule conjI)
qed

subsection \<open>Saving and restoring\<close>

text \<open>
  C2. In every state with an active module \<^verbatim>\<open>save\<close> succeeds, and the body of
  \<^verbatim>\<open>with saved_scope(saved)\<close>, entered in any state whatever (inside the original
  scope or after it was left), starts in a state in which the five queries have the
  results they had when \<^verbatim>\<open>save\<close> was called.
\<close>

theorem save_restore_queries:
  assumes "module s = Some m" and "m \<noteq> []"
  shows "\<exists>saved. save s = Inr saved
           \<and> queries (saved_scope_enter saved s') = queries s
           \<and> (\<forall>body. saved_scope saved body s' =
                 (case body (saved_scope_enter saved s') of
                    Inl e \<Rightarrow> Inl e
                  | Inr t \<Rightarrow> saved_scope_exit saved t))"
proof -
  let ?saved = "(m, if classes s \<noteq> [] then Some (last (classes s)) else None, function s)"
  from assms have "save s = Inr ?saved" by (simp add: save_def)
  moreover from assms have "queries (saved_scope_enter ?saved s') = queries s"
    by (simp add: queries_def saved_scope_enter_def module_scope_enter_def enter_class_def
          function_scope_enter_def current_module_id_def current_target_def
          current_full_target_def current_type_name_def current_function_name_def
          split: option.split)
  ultimately show ?thesis using saved_scope_unfold by blast
qed

theorem save_restore_queries_witness:
  "save \<lparr>module = Some ''m'',
        classes = [\<lparr>TypeInfo.name = ''A'', TypeInfo.fullname = ''m.A''\<rparr>,
                   \<lparr>TypeInfo.name = ''B'', TypeInfo.fullname = ''m.A.B''\<rparr>],
        function = Some \<lparr>FuncBase.name = ''f'', FuncBase.fullname = ''m.A.B.f''\<rparr>,
        ignored = 1\<rparr>
     = Inr (''m'', Some \<lparr>TypeInfo.name = ''B'', TypeInfo.fullname = ''m.A.B''\<rparr>,
        Some \<lparr>FuncBase.name = ''f'', FuncBase.fullname = ''m.A.B.f''\<rparr>)
   \<and> queries (saved_scope_enter (''m'', Some \<lparr>TypeInfo.name = ''B'', TypeInfo.fullname = ''m.A.B''\<rparr>,
        Some \<lparr>FuncBase.name = ''f'', FuncBase.fullname = ''m.A.B.f''\<rparr>)
       \<lparr>module = Some ''m'',
        classes = [\<lparr>TypeInfo.name = ''A'', TypeInfo.fullname = ''m.A''\<rparr>,
                   \<lparr>TypeInfo.name = ''B'', TypeInfo.fullname = ''m.A.B''\<rparr>],
        function = Some \<lparr>FuncBase.name = ''f'', FuncBase.fullname = ''m.A.B.f''\<rparr>,
        ignored = 1\<rparr>)
     = (Inr ''m'', Inr ''m.A.B.f'', Inr ''m.A.B.f'', Inr (Some ''B''), Inr (Some ''f''))
   \<and> queries \<lparr>module = Some ''m'',
        classes = [\<lparr>TypeInfo.name = ''A'', TypeInfo.fullname = ''m.A''\<rparr>,
                   \<lparr>TypeInfo.name = ''B'', TypeInfo.fullname = ''m.A.B''\<rparr>],
        function = Some \<lparr>FuncBase.name = ''f'', FuncBase.fullname = ''m.A.B.f''\<rparr>,
        ignored = 1\<rparr>
     = (Inr ''m'', Inr ''m.A.B.f'', Inr ''m.A.B.f'', Inr (Some ''B''), Inr (Some ''f''))"
proof -
  let ?s = "\<lparr>module = Some ''m'',
        classes = [\<lparr>TypeInfo.name = ''A'', TypeInfo.fullname = ''m.A''\<rparr>,
                   \<lparr>TypeInfo.name = ''B'', TypeInfo.fullname = ''m.A.B''\<rparr>],
        function = Some \<lparr>FuncBase.name = ''f'', FuncBase.fullname = ''m.A.B.f''\<rparr>,
        ignored = 1\<rparr>"
  have m: "module ?s = Some ''m''" by simp
  have n: "''m'' \<noteq> []" by simp
  have sv: "save ?s = Inr (''m'', Some \<lparr>TypeInfo.name = ''B'', TypeInfo.fullname = ''m.A.B''\<rparr>,
        Some \<lparr>FuncBase.name = ''f'', FuncBase.fullname = ''m.A.B.f''\<rparr>)"
    by (simp add: save_def)
  from save_restore_queries [OF m n, of ?s] sv
  have q: "queries (saved_scope_enter (''m'', Some \<lparr>TypeInfo.name = ''B'', TypeInfo.fullname = ''m.A.B''\<rparr>,
        Some \<lparr>FuncBase.name = ''f'', FuncBase.fullname = ''m.A.B.f''\<rparr>) ?s) = queries ?s"
    by auto
  have "queries ?s
     = (Inr ''m'', Inr ''m.A.B.f'', Inr ''m.A.B.f'', Inr (Some ''B''), Inr (Some ''f''))"
    by (simp add: queries_def current_module_id_def current_target_def
          current_full_target_def current_type_name_def current_function_name_def)
  with sv q show ?thesis by simp
qed

text \<open>
  C10. When the body of \<^verbatim>\<open>with saved_scope(saved)\<close> is a strictly paired sequence of
  function and class scopes and \<^verbatim>\<open>saved\<close> comes from \<^verbatim>\<open>save\<close>, the block ends, from
  any state it was entered in, with no module active, an empty class stack, no active
  function and depth zero: nothing of the enclosing scope comes back.
\<close>

theorem saved_scope_clears:
  assumes "save s = Inr saved" and "paired body" and "module_free body"
  shows "saved_scope saved (exec body) s' =
           Inr \<lparr>module = None, classes = [], function = None, ignored = 0\<rparr>"
proof -
  have "valid (saved_scope_enter saved s')" by (rule valid_saved_scope_enter)
  with assms(2,3) have "exec body (saved_scope_enter saved s') = Inr (saved_scope_enter saved s')"
    by (rule exec_paired)
  moreover from assms(1) have "fst saved \<noteq> []" by (rule save_module)
  ultimately show ?thesis
    by (simp add: saved_scope_unfold saved_scope_exit_enter init_def)
qed

theorem saved_scope_clears_witness:
  "saved_scope (''m'', Some \<lparr>TypeInfo.name = ''B'', TypeInfo.fullname = ''m.A.B''\<rparr>,
        Some \<lparr>FuncBase.name = ''f'', FuncBase.fullname = ''m.A.B.f''\<rparr>)
     (exec [EnterFunction \<lparr>FuncBase.name = ''g'', FuncBase.fullname = ''m.A.B.f.g''\<rparr>,
            LeaveFunction])
     \<lparr>module = Some ''m'',
        classes = [\<lparr>TypeInfo.name = ''A'', TypeInfo.fullname = ''m.A''\<rparr>,
                   \<lparr>TypeInfo.name = ''B'', TypeInfo.fullname = ''m.A.B''\<rparr>],
        function = Some \<lparr>FuncBase.name = ''f'', FuncBase.fullname = ''m.A.B.f''\<rparr>,
        ignored = 1\<rparr>
   = Inr \<lparr>module = None, classes = [], function = None, ignored = 0\<rparr>"
proof -
  have sv: "save \<lparr>module = Some ''m'',
        classes = [\<lparr>TypeInfo.name = ''A'', TypeInfo.fullname = ''m.A''\<rparr>,
                   \<lparr>TypeInfo.name = ''B'', TypeInfo.fullname = ''m.A.B''\<rparr>],
        function = Some \<lparr>FuncBase.name = ''f'', FuncBase.fullname = ''m.A.B.f''\<rparr>,
        ignored = 1\<rparr>
     = Inr (''m'', Some \<lparr>TypeInfo.name = ''B'', TypeInfo.fullname = ''m.A.B''\<rparr>,
        Some \<lparr>FuncBase.name = ''f'', FuncBase.fullname = ''m.A.B.f''\<rparr>)"
    by (simp add: save_def)
  have p: "paired [EnterFunction \<lparr>FuncBase.name = ''g'', FuncBase.fullname = ''m.A.B.f.g''\<rparr>,
            LeaveFunction]"
    by (simp add: paired_def)
  have f: "module_free [EnterFunction \<lparr>FuncBase.name = ''g'', FuncBase.fullname = ''m.A.B.f.g''\<rparr>,
            LeaveFunction]"
    by simp
  show ?thesis by (rule saved_scope_clears [OF sv p f])
qed

end
